theory Spec2Isabelle
  imports Main "HOL-Library.Multiset"
begin

section \<open>Data model (src/types.ts)\<close>

text \<open>
  \<^verbatim>\<open>export type BlockId = string;\<close>
  \<^verbatim>\<open>export interface Block { id: BlockId; type: 'text' | 'image' | 'heading';
     content: string; isEditing?: boolean; }\<close>

  The union of string literals is a datatype; \<open>type_name\<close> gives back the string
  where the source interpolates it. The optional field \<open>isEditing\<close> is a
  \<open>bool option\<close>: \<open>None\<close> is a block object without the property (the six seed
  blocks), which JavaScript reads as \<open>undefined\<close>. The field \<open>id\<close> is named
  \<open>block_id\<close> and \<open>type\<close> is named \<open>block_type\<close>.
\<close>

type_synonym BlockId = string

datatype BlockType = Text | Image | Heading

fun type_name :: "BlockType \<Rightarrow> string" where
  "type_name Text = ''text''"
| "type_name Image = ''image''"
| "type_name Heading = ''heading''"

record Block =
  block_id :: BlockId
  block_type :: BlockType
  content :: string
  isEditing :: "bool option"

text \<open>
  Truthiness of the optional boolean, as \<^verbatim>\<open>!block.isEditing\<close> and
  \<^verbatim>\<open>if (block.isEditing)\<close> read it: \<open>undefined\<close> and \<open>false\<close> are falsy.
  This is the \<open>editing\<close> flag of the specification.
\<close>

definition editing :: "Block \<Rightarrow> bool" where
  "editing b = (isEditing b = Some True)"

text \<open>
  A slot of a JavaScript array of blocks holds a block or \<open>undefined\<close>; the slot is a
  \<open>Block option\<close> and \<open>None\<close> is \<open>undefined\<close>. A Document of the specification is an
  array all of whose slots hold a block: \<open>map Some D\<close> for a list \<open>D\<close> of blocks.
\<close>

type_synonym blocks_array = "Block option list"

datatype js_error = TypeError

section \<open>Array primitives\<close>

text \<open>
  \<^verbatim>\<open>arr.splice(start, deleteCount, ...items)\<close> for a non-negative integer \<open>start\<close>:
  the start is clamped to the length, the delete count to what is left; the call returns
  the removed elements and leaves \<open>arr\<close> with \<open>items\<close> in their place. The model
  returns both (removed elements, new contents).
\<close>

definition splice_arr :: "nat \<Rightarrow> nat \<Rightarrow> 'a list \<Rightarrow> 'a list \<Rightarrow> 'a list \<times> 'a list" where
  "splice_arr start deleteCount items arr =
     (let actualStart = min start (length arr);
          actualDeleteCount = min deleteCount (length arr - actualStart)
      in (take actualDeleteCount (drop actualStart arr),
          take actualStart arr @ items @ drop (actualStart + actualDeleteCount) arr))"

text \<open>\<^verbatim>\<open>arr[i]\<close>: \<open>undefined\<close> when \<open>i\<close> is not an index of the array.\<close>

definition index_arr :: "'a option list \<Rightarrow> nat \<Rightarrow> 'a option" where
  "index_arr arr i = (if i < length arr then arr ! i else None)"

text \<open>\<^verbatim>\<open>const [first] = arr\<close>: the first element, \<open>undefined\<close> for an empty array.\<close>

definition destructure_first :: "'a option list \<Rightarrow> 'a option" where
  "destructure_first arr = (case arr of [] \<Rightarrow> None | r # _ \<Rightarrow> r)"

text \<open>\<^verbatim>\<open>arr.map(f)\<close> with a callback that may throw: the first exception ends the call.\<close>

fun map_arr :: "('a \<Rightarrow> js_error + 'b) \<Rightarrow> 'a list \<Rightarrow> js_error + 'b list" where
  "map_arr f [] = Inr []"
| "map_arr f (x # xs) =
     (case f x of
        Inl e \<Rightarrow> Inl e
      | Inr y \<Rightarrow> (case map_arr f xs of Inl e \<Rightarrow> Inl e | Inr ys \<Rightarrow> Inr (y # ys)))"

section \<open>The block editor (src/components/BlockEditor.tsx)\<close>

subsection \<open>reorder\<close>

text \<open>
  \<^verbatim>\<open>const result = Array.from(list);
  const [removed] = result.splice(startIndex, 1);
  result.splice(endIndex, 0, removed);
  return result;\<close>
\<close>

definition reorder :: "'a option list \<Rightarrow> nat \<Rightarrow> nat \<Rightarrow> 'a option list" where
  "reorder list startIndex endIndex =
     (let result = list;
          (removedElems, result1) = splice_arr startIndex 1 [] result;
          removed = destructure_first removedElems;
          (unused, result2) = splice_arr endIndex 0 [removed] result1
      in result2)"

subsection \<open>addBlock, toggleEditMode, updateBlockContent\<close>

text \<open>\<^verbatim>\<open>type.toUpperCase()\<close> on the ASCII letters of the three type names.\<close>

definition toUpperCase_char :: "char \<Rightarrow> char" where
  "toUpperCase_char c =
     (if 97 \<le> (of_char c :: nat) \<and> (of_char c :: nat) \<le> 122
      then char_of ((of_char c :: nat) - 32) else c)"

definition toUpperCase :: "string \<Rightarrow> string" where
  "toUpperCase s = map toUpperCase_char s"

text \<open>
  \<^verbatim>\<open>const newBlock: Block = { id: uuidv4(), type,
     content: type === 'image' ? `https://placehold.co/200x150/d3d3d3/555555?text=${type.toUpperCase()}`
                               : `New ${type} block`,
     isEditing: type !== 'image' };
  setBlocks((prevBlocks) => [...prevBlocks, newBlock]);\<close>

  The identifier that \<open>uuidv4()\<close> returns is the parameter \<open>uuid\<close>.
\<close>

definition newBlock :: "BlockId \<Rightarrow> BlockType \<Rightarrow> Block" where
  "newBlock uuid ty =
     \<lparr> block_id = uuid,
       block_type = ty,
       content = (if ty = Image
                  then ''https://placehold.co/200x150/d3d3d3/555555?text='' @ toUpperCase (type_name ty)
                  else ''New '' @ type_name ty @ '' block''),
       isEditing = Some (ty \<noteq> Image) \<rparr>"

definition addBlock :: "BlockId \<Rightarrow> BlockType \<Rightarrow> blocks_array \<Rightarrow> blocks_array" where
  "addBlock uuid ty prevBlocks = prevBlocks @ [Some (newBlock uuid ty)]"

text \<open>
  Both callbacks passed to \<open>prevBlocks.map\<close> read \<open>block.id\<close> first; on a slot holding
  \<open>undefined\<close> that throws a TypeError. \<open>on_block f\<close> is a callback that does so and
  otherwise returns what \<open>f\<close> makes of the block.
\<close>

definition on_block :: "(Block \<Rightarrow> Block) \<Rightarrow> Block option \<Rightarrow> js_error + Block option" where
  "on_block f slot = (case slot of None \<Rightarrow> Inl TypeError | Some b \<Rightarrow> Inr (Some (f b)))"

text \<open>
  \<^verbatim>\<open>prevBlocks.map(block =>
     block.id === id ? { ...block, isEditing: !block.isEditing } : { ...block, isEditing: false })\<close>
\<close>

definition toggle_block :: "BlockId \<Rightarrow> Block \<Rightarrow> Block" where
  "toggle_block i block =
     (if block_id block = i
      then block\<lparr>isEditing := Some (\<not> editing block)\<rparr>
      else block\<lparr>isEditing := Some False\<rparr>)"

definition toggleEditMode :: "BlockId \<Rightarrow> blocks_array \<Rightarrow> js_error + blocks_array" where
  "toggleEditMode i prevBlocks = map_arr (on_block (toggle_block i)) prevBlocks"

text \<open>
  \<^verbatim>\<open>prevBlocks.map(block => block.id === id ? { ...block, content } : block)\<close>
\<close>

definition update_block :: "BlockId \<Rightarrow> string \<Rightarrow> Block \<Rightarrow> Block" where
  "update_block i c block = (if block_id block = i then block\<lparr>content := c\<rparr> else block)"

definition updateBlockContent :: "BlockId \<Rightarrow> string \<Rightarrow> blocks_array \<Rightarrow> js_error + blocks_array" where
  "updateBlockContent i c prevBlocks = map_arr (on_block (update_block i c)) prevBlocks"

subsection \<open>The component's state and its drag handlers\<close>

text \<open>
  The state of the component: the \<open>useState\<close> cells \<open>blocks\<close>, \<open>isDragging\<close> and
  \<open>dragOverIndex\<close>, the ref \<open>draggedItemIndex\<close> (\<open>None\<close> is \<open>null\<close>), and the
  \<open>sessionStorage\<close> item \<open>draggedBlockId\<close> (\<open>None\<close> when it is not stored). Indices
  are those of \<open>blocks.map((block, index) => ...)\<close>, natural numbers. The handlers are
  those of the latest render: they see the current \<open>blocks\<close>. The \<open>dataTransfer\<close>
  object of the browser's event is not part of the state.
\<close>

record editor_state =
  blocks :: blocks_array
  isDragging :: bool
  dragOverIndex :: "nat option"
  draggedItemIndex :: "nat option"
  draggedBlockId :: "BlockId option"

text \<open>
  \<^verbatim>\<open>setIsDragging(true); draggedItemIndex.current = index;
  sessionStorage.setItem('draggedBlockId', blocks[index].id); ...\<close>

  \<open>blocks[index].id\<close> throws a TypeError when \<open>blocks[index]\<close> is \<open>undefined\<close>.
  The exception ends the handler; the error value does not carry the two assignments made
  before it.
\<close>

definition handleDragStart :: "nat \<Rightarrow> editor_state \<Rightarrow> js_error + editor_state" where
  "handleDragStart index st =
     (case index_arr (blocks st) index of
        None \<Rightarrow> Inl TypeError
      | Some b \<Rightarrow>
          Inr (st\<lparr>isDragging := True, draggedItemIndex := Some index,
                  draggedBlockId := Some (block_id b)\<rparr>))"

text \<open>
  \<^verbatim>\<open>if (draggedItemIndex.current !== null && draggedItemIndex.current !== index)
    setDragOverIndex(index);\<close>
\<close>

definition handleDragOver :: "nat \<Rightarrow> editor_state \<Rightarrow> editor_state" where
  "handleDragOver index st =
     (if draggedItemIndex st \<noteq> None \<and> draggedItemIndex st \<noteq> Some index
      then st\<lparr>dragOverIndex := Some index\<rparr> else st)"

definition handleDragLeave :: "editor_state \<Rightarrow> editor_state" where
  "handleDragLeave st = st\<lparr>dragOverIndex := None\<rparr>"

text \<open>
  \<^verbatim>\<open>setDragOverIndex(null);
  if (draggedItemIndex.current === null) return;
  const startIndex = draggedItemIndex.current;
  if (startIndex === dropIndex) {
    setIsDragging(false); draggedItemIndex.current = null;
    sessionStorage.removeItem('draggedBlockId'); return;
  }
  const reorderedBlocks = reorder(blocks, startIndex, dropIndex);
  setBlocks(reorderedBlocks);
  setIsDragging(false); draggedItemIndex.current = null;
  sessionStorage.removeItem('draggedBlockId');\<close>
\<close>

definition handleDrop :: "nat \<Rightarrow> editor_state \<Rightarrow> editor_state" where
  "handleDrop dropIndex st =
     (let st1 = st\<lparr>dragOverIndex := None\<rparr> in
      case draggedItemIndex st of
        None \<Rightarrow> st1
      | Some startIndex \<Rightarrow>
          if startIndex = dropIndex
          then st1\<lparr>isDragging := False, draggedItemIndex := None, draggedBlockId := None\<rparr>
          else st1\<lparr>blocks := reorder (blocks st) startIndex dropIndex,
                   isDragging := False, draggedItemIndex := None, draggedBlockId := None\<rparr>)"

definition handleDragEnd :: "editor_state \<Rightarrow> editor_state" where
  "handleDragEnd st = st\<lparr>isDragging := False, draggedItemIndex := None, draggedBlockId := None\<rparr>"

text \<open>
  The \<open>onDrop\<close> handler of the container element:
  \<^verbatim>\<open>if (blocks.length === 0 && draggedItemIndex.current !== null) {
    e.preventDefault(); setDragOverIndex(null);
    const draggedBlock = blocks[draggedItemIndex.current];
    setBlocks([draggedBlock]);
    setIsDragging(false); draggedItemIndex.current = null;
    sessionStorage.removeItem('draggedBlockId');
  }\<close>
\<close>

definition containerOnDrop :: "editor_state \<Rightarrow> editor_state" where
  "containerOnDrop st =
     (case draggedItemIndex st of
        None \<Rightarrow> st
      | Some draggedIndex \<Rightarrow>
          if length (blocks st) = 0
          then (let draggedBlock = index_arr (blocks st) draggedIndex in
                st\<lparr>dragOverIndex := None, blocks := [draggedBlock],
                   isDragging := False, draggedItemIndex := None, draggedBlockId := None\<rparr>)
          else st)"

subsection \<open>Double-click on a block (src/components/BlockItem.tsx)\<close>

text \<open>
  \<^verbatim>\<open>onDoubleClick={() => {
     if (block.type === 'text' || block.type === 'heading') { toggleEditMode(block.id); } }}\<close>
\<close>

definition onDoubleClick :: "Block \<Rightarrow> blocks_array \<Rightarrow> js_error + blocks_array" where
  "onDoubleClick block prevBlocks =
     (if block_type block = Text \<or> block_type block = Heading
      then toggleEditMode (block_id block) prevBlocks
      else Inr prevBlocks)"

subsection \<open>The operations of the store as steps of the state\<close>

text \<open>
  One constructor for each operation that changes the state: \<open>addBlock\<close> (with the
  identifier \<open>uuidv4()\<close> returns), \<open>updateBlockContent\<close>, \<open>toggleEditMode\<close>, and the
  drag handlers of a block: \<open>handleDragStart\<close>, \<open>handleDragOver\<close>,
  \<open>handleDragLeave\<close>, \<open>handleDrop\<close>, \<open>handleDragEnd\<close>. A drop on a block also
  reaches the container's \<open>onDrop\<close>, which does nothing when a block is rendered
  (\<open>blocks.length\<close> is not 0).
\<close>

datatype store_op =
    AddBlock BlockId BlockType
  | UpdateBlockContent BlockId string
  | ToggleEditMode BlockId
  | BeginDrag nat
  | DragOver nat
  | DragLeave
  | Drop nat
  | EndDrag

fun store_step :: "store_op \<Rightarrow> editor_state \<Rightarrow> js_error + editor_state" where
  "store_step (AddBlock uuid ty) st = Inr (st\<lparr>blocks := addBlock uuid ty (blocks st)\<rparr>)"
| "store_step (UpdateBlockContent i c) st =
     (case updateBlockContent i c (blocks st) of
        Inl e \<Rightarrow> Inl e
      | Inr bs \<Rightarrow> Inr (st\<lparr>blocks := bs\<rparr>))"
| "store_step (ToggleEditMode i) st =
     (case toggleEditMode i (blocks st) of
        Inl e \<Rightarrow> Inl e
      | Inr bs \<Rightarrow> Inr (st\<lparr>blocks := bs\<rparr>))"
| "store_step (BeginDrag index) st = handleDragStart index st"
| "store_step (DragOver index) st = Inr (handleDragOver index st)"
| "store_step DragLeave st = Inr (handleDragLeave st)"
| "store_step (Drop dropIndex) st = Inr (handleDrop dropIndex st)"
| "store_step EndDrag st = Inr (handleDragEnd st)"

text \<open>A sequence of operations; the first exception ends it.\<close>

fun store_run :: "store_op list \<Rightarrow> editor_state \<Rightarrow> js_error + editor_state" where
  "store_run [] st = Inr st"
| "store_run (x # ops) st =
     (case store_step x st of Inl e \<Rightarrow> Inl e | Inr st' \<Rightarrow> store_run ops st')"

section \<open>Properties of a document\<close>

text \<open>The blocks an array holds, in order, leaving out the slots that hold \<open>undefined\<close>.\<close>

fun defined_blocks :: "blocks_array \<Rightarrow> Block list" where
  "defined_blocks [] = []"
| "defined_blocks (None # slots) = defined_blocks slots"
| "defined_blocks (Some b # slots) = b # defined_blocks slots"

text \<open>At most one block has \<open>editing = true\<close>.\<close>

definition at_most_one_editing :: "Block list \<Rightarrow> bool" where
  "at_most_one_editing D = (length (filter editing D) \<le> 1)"

text \<open>No block of type image has \<open>editing = true\<close>.\<close>

definition no_image_editing :: "Block list \<Rightarrow> bool" where
  "no_image_editing D = (filter (\<lambda>b. block_type b = Image \<and> editing b) D = [])"

text \<open>
  What the block presenter guarantees of a call \<open>toggleEditMode(id)\<close>: it makes the call
  for a text or heading block only (on a double-click, see \<open>onDoubleClick\<close>, and from the
  input that it renders for an editing text or heading block), so \<open>id\<close> is not the
  identifier of an image block. Every other operation is allowed.
\<close>

fun toggles_no_image :: "store_op \<Rightarrow> editor_state \<Rightarrow> bool" where
  "toggles_no_image (ToggleEditMode i) st =
     (filter (\<lambda>b. block_id b = i \<and> block_type b = Image) (defined_blocks (blocks st)) = [])"
| "toggles_no_image x st = True"

text \<open>A sequence of operations every toggle of which is one the presenter makes.\<close>

fun toggles_no_image_run :: "store_op list \<Rightarrow> editor_state \<Rightarrow> bool" where
  "toggles_no_image_run [] st = True"
| "toggles_no_image_run (x # ops) st =
     (toggles_no_image x st \<and>
      (case store_step x st of Inl e \<Rightarrow> True | Inr st' \<Rightarrow> toggles_no_image_run ops st'))"

section \<open>The documents and states of the scenarios\<close>

definition blockA :: Block where
  "blockA = \<lparr> block_id = ''A'', block_type = Heading, content = ''Title'', isEditing = None \<rparr>"

definition blockB :: Block where
  "blockB = \<lparr> block_id = ''B'', block_type = Text, content = ''Paragraph'', isEditing = None \<rparr>"

definition blockC :: Block where
  "blockC = \<lparr> block_id = ''C'', block_type = Image, content = ''https://example.org/c.png'',
              isEditing = None \<rparr>"

text \<open>A state with the given blocks and no drag in progress.\<close>

definition idle :: "blocks_array \<Rightarrow> editor_state" where
  "idle bs = \<lparr> blocks = bs, isDragging = False, dragOverIndex = None,
               draggedItemIndex = None, draggedBlockId = None \<rparr>"

text \<open>A state with the given blocks and a drag in progress from the given index.\<close>

definition dragging :: "blocks_array \<Rightarrow> nat \<Rightarrow> BlockId \<Rightarrow> editor_state" where
  "dragging bs index i = \<lparr> blocks = bs, isDragging = True, dragOverIndex = None,
               draggedItemIndex = Some index, draggedBlockId = Some i \<rparr>"

section \<open>Facts about the array primitives\<close>

lemma splice_remove_valid:
  assumes "i < length xs"
  shows "splice_arr i (Suc 0) [] xs = ([xs ! i], take i xs @ drop (Suc i) xs)"
proof -
  from assms have "drop i xs = xs ! i # drop (Suc i) xs"
    by (simp add: Cons_nth_drop_Suc)
  then have "take (Suc 0) (drop i xs) = [xs ! i]" by simp
  moreover from assms have "min i (length xs) = i" by simp
  moreover from assms have "min (Suc 0) (length xs - i) = Suc 0" by simp
  ultimately show ?thesis by (simp add: splice_arr_def)
qed

lemma splice_remove_invalid:
  "length xs \<le> i \<Longrightarrow> splice_arr i (Suc 0) [] xs = ([], xs)"
  by (simp add: splice_arr_def)

lemma splice_insert: "splice_arr j 0 [x] ys = ([], take j ys @ x # drop j ys)"
  by (simp add: splice_arr_def min_def)

text \<open>Taking an element out and putting it back where it was; putting one in and taking it out.\<close>

lemma insert_remove:
  "i < length xs \<Longrightarrow>
     take i (take i xs @ drop (Suc i) xs) @ xs ! i # drop i (take i xs @ drop (Suc i) xs) = xs"
  by (simp add: min_absorb2 id_take_nth_drop[symmetric])

lemma remove_insert:
  "j \<le> length ys \<Longrightarrow>
     take j (take j ys @ x # drop j ys) @ drop (Suc j) (take j ys @ x # drop j ys) = ys"
  by (simp add: min_absorb2)

lemma nth_insert: "j \<le> length ys \<Longrightarrow> (take j ys @ x # drop j ys) ! j = x"
  by (simp add: nth_append min_absorb2)

lemma mset_insert: "mset (take j ys @ x # drop j ys) = add_mset x (mset ys)"
proof -
  have "mset (take j ys) + mset (drop j ys) = mset ys"
    by (simp only: mset_append[symmetric] append_take_drop_id)
  then show ?thesis by simp
qed

lemma mset_remove:
  assumes "i < length xs"
  shows "add_mset (xs ! i) (mset (take i xs @ drop (Suc i) xs)) = mset xs"
proof -
  have "mset xs = mset (take i xs @ xs ! i # drop (Suc i) xs)"
    using assms by (simp only: id_take_nth_drop[symmetric])
  then show ?thesis by simp
qed

section \<open>Facts about reorder\<close>

lemma reorder_valid:
  "i < length xs \<Longrightarrow>
     reorder xs i j =
       take j (take i xs @ drop (Suc i) xs) @ xs ! i # drop j (take i xs @ drop (Suc i) xs)"
  by (simp add: reorder_def splice_remove_valid splice_insert destructure_first_def
      del: take_append drop_append)

lemma reorder_invalid:
  "length xs \<le> i \<Longrightarrow> reorder xs i j = take j xs @ None # drop j xs"
  by (simp add: reorder_def splice_remove_invalid splice_insert destructure_first_def)


lemma reorder_mset: "i < length xs \<Longrightarrow> mset (reorder xs i j) = mset xs"
  by (simp only: reorder_valid mset_insert mset_remove)

text \<open>On a Document the result is a Document again: no slot holds \<open>undefined\<close>.\<close>

lemma reorder_document:
  assumes "i < length D"
  shows "reorder (map Some D) i j =
           map Some (take j (take i D @ drop (Suc i) D) @ D ! i # drop j (take i D @ drop (Suc i) D))"
proof -
  define R where "R = take i D @ drop (Suc i) D"
  have "i < length (map Some D)" using assms by simp
  then have "reorder (map Some D) i j =
       take j (take i (map Some D) @ drop (Suc i) (map Some D)) @
       map Some D ! i # drop j (take i (map Some D) @ drop (Suc i) (map Some D))"
    by (rule reorder_valid)
  moreover have "take i (map Some D) @ drop (Suc i) (map Some D) = map Some R"
    by (simp add: R_def take_map drop_map)
  moreover have "map Some D ! i = Some (D ! i)" using assms by simp
  ultimately have "reorder (map Some D) i j =
       take j (map Some R) @ Some (D ! i) # drop j (map Some R)"
    by simp
  also have "\<dots> = map Some (take j R @ D ! i # drop j R)"
    by (simp add: take_map drop_map)
  finally show ?thesis by (simp only: R_def)
qed


text \<open>The blocks after a drop on a block.\<close>

lemma blocks_handleDrop:
  "blocks (handleDrop j st) =
     (case draggedItemIndex st of
        None \<Rightarrow> blocks st
      | Some i \<Rightarrow> if i = j then blocks st else reorder (blocks st) i j)"
  by (simp add: handleDrop_def Let_def split: option.splits)

section \<open>Moving a block: drop\<close>

text \<open>
  C1. For every Document \<open>D\<close> and every pair of valid indices \<open>i\<close>, \<open>j\<close> (both below
  the length of \<open>D\<close>), a drop at \<open>j\<close> while the block at \<open>i\<close> is dragged leaves a
  Document of the same length with the same multiset of block identifiers; the blocks
  themselves are the same multiset, so only their order changes.
\<close>

theorem drop_preserves_blocks:
  assumes "blocks st = map Some D" and "draggedItemIndex st = Some i"
    and "i < length D" and "j < length D"
  shows "\<exists>D'. blocks (handleDrop j st) = map Some D' \<and> length D' = length D \<and>
           mset (map block_id D') = mset (map block_id D) \<and> mset D' = mset D"
proof (cases "i = j")
  case True
  with assms have "blocks (handleDrop j st) = map Some D" by (simp add: handleDrop_def)
  then show ?thesis by blast
next
  case False
  define D' where
    "D' = take j (take i D @ drop (Suc i) D) @ D ! i # drop j (take i D @ drop (Suc i) D)"
  have b: "blocks (handleDrop j st) = map Some D'"
    using assms False by (simp add: handleDrop_def reorder_document D'_def)
  have m: "mset D' = mset D"
    using assms(3) by (simp only: D'_def mset_insert mset_remove)
  then have "length D' = length D" by (metis size_mset)
  moreover from m have "mset (map block_id D') = mset (map block_id D)" by simp
  ultimately show ?thesis using b m by blast
qed

theorem drop_preserves_blocks_witness:
  "blocks (dragging (map Some [blockA, blockB, blockC]) 0 ''A'') = map Some [blockA, blockB, blockC] \<and>
   draggedItemIndex (dragging (map Some [blockA, blockB, blockC]) 0 ''A'') = Some 0 \<and>
   (0::nat) < length [blockA, blockB, blockC] \<and> (2::nat) < length [blockA, blockB, blockC] \<and>
   (\<exists>D'. blocks (handleDrop 2 (dragging (map Some [blockA, blockB, blockC]) 0 ''A'')) = map Some D' \<and>
      length D' = length [blockA, blockB, blockC] \<and>
      mset (map block_id D') = mset (map block_id [blockA, blockB, blockC]) \<and>
      mset D' = mset [blockA, blockB, blockC])"
  using drop_preserves_blocks
    [of "dragging (map Some [blockA, blockB, blockC]) 0 ''A''" "[blockA, blockB, blockC]" 0 2]
  by (simp add: dragging_def)

text \<open>
  C2. For every Document \<open>D\<close> of length \<open>n\<close> and valid indices \<open>i \<noteq> j\<close>, starting a
  drag at \<open>i\<close>, dragging over \<open>j\<close> and dropping at \<open>j\<close> leaves a Document of length
  \<open>n\<close> in which the moved block stands at index \<open>j\<close>, and the other blocks are in
  the order they had: the result without its element at \<open>j\<close> is \<open>D\<close> without its element
  at \<open>i\<close>. The witness is the scenario: on \<open>[A, B, C]\<close>, a drag from 0 dropped at 2
  gives \<open>[B, C, A]\<close>.
\<close>

theorem drop_moves_block:
  assumes "blocks st = map Some D" and "i < length D" and "j < length D" and "i \<noteq> j"
  shows "\<exists>st1 D'. handleDragStart i st = Inr st1 \<and>
           blocks (handleDrop j (handleDragOver j st1)) = map Some D' \<and>
           length D' = length D \<and> D' ! j = D ! i \<and>
           take j D' @ drop (Suc j) D' = take i D @ drop (Suc i) D"
proof -
  define R where "R = take i D @ drop (Suc i) D"
  define D' where "D' = take j R @ D ! i # drop j R"
  define st1 where
    "st1 = st\<lparr>isDragging := True, draggedItemIndex := Some i, draggedBlockId := Some (block_id (D ! i))\<rparr>"
  have "length R = length D - 1" using assms(2) by (simp add: R_def)
  with assms(3) have jR: "j \<le> length R" by simp
  have start: "handleDragStart i st = Inr st1"
    using assms(1,2) by (simp add: handleDragStart_def index_arr_def st1_def)
  have "blocks (handleDrop j (handleDragOver j st1)) = reorder (map Some D) i j"
    using assms(1,4) by (simp add: handleDrop_def handleDragOver_def st1_def)
  then have b: "blocks (handleDrop j (handleDragOver j st1)) = map Some D'"
    using assms(2) by (simp only: reorder_document D'_def R_def)
  have len: "length D' = length D" using jR assms(2) by (simp add: D'_def R_def)
  have pos: "D' ! j = D ! i" unfolding D'_def using jR by (rule nth_insert)
  have rest: "take j D' @ drop (Suc j) D' = R" unfolding D'_def using jR by (rule remove_insert)
  from start b len pos rest show ?thesis unfolding R_def by blast
qed

theorem drop_moves_block_witness:
  "blocks (idle (map Some [blockA, blockB, blockC])) = map Some [blockA, blockB, blockC] \<and>
   (0::nat) < length [blockA, blockB, blockC] \<and> (2::nat) < length [blockA, blockB, blockC] \<and>
   (0::nat) \<noteq> 2 \<and>
   (\<exists>st1 D'. handleDragStart 0 (idle (map Some [blockA, blockB, blockC])) = Inr st1 \<and>
      blocks (handleDrop 2 (handleDragOver 2 st1)) = map Some D' \<and>
      length D' = length [blockA, blockB, blockC] \<and> D' ! 2 = [blockA, blockB, blockC] ! 0 \<and>
      take 2 D' @ drop (Suc 2) D' = take 0 [blockA, blockB, blockC] @ drop (Suc 0) [blockA, blockB, blockC]) \<and>
   store_run [BeginDrag 0, DragOver 2, Drop 2] (idle (map Some [blockA, blockB, blockC]))
     = Inr (idle (map Some [blockB, blockC, blockA]))"
proof -
  have "store_run [BeginDrag 0, DragOver 2, Drop 2] (idle (map Some [blockA, blockB, blockC]))
     = Inr (idle (map Some [blockB, blockC, blockA]))"
    by (simp add: idle_def handleDragStart_def index_arr_def handleDragOver_def handleDrop_def reorder_valid)
  then show ?thesis
    using drop_moves_block [of "idle (map Some [blockA, blockB, blockC])" "[blockA, blockB, blockC]" 0 2]
    by (simp add: idle_def)
qed

text \<open>
  C7. For every array \<open>D\<close>, so for every Document, and valid indices \<open>i\<close> and \<open>j\<close>,
  the move from \<open>i\<close> to \<open>j\<close> followed by the move from \<open>j\<close> back to \<open>i\<close> gives
  \<open>D\<close> again.
\<close>

theorem reorder_inverse_move:
  assumes "i < length D" and "j < length D"
  shows "reorder (reorder D i j) j i = D"
proof -
  define R where "R = take i D @ drop (Suc i) D"
  define S where "S = take j R @ D ! i # drop j R"
  have "length R = length D - 1" using assms by (simp add: R_def)
  with assms have jR: "j \<le> length R" by simp
  have S: "reorder D i j = S" using assms by (simp only: reorder_valid S_def R_def)
  have "j < length S" using jR by (simp add: S_def)
  then have "reorder S j i =
      take i (take j S @ drop (Suc j) S) @ S ! j # drop i (take j S @ drop (Suc j) S)"
    by (rule reorder_valid)
  moreover have "take j S @ drop (Suc j) S = R"
    unfolding S_def using jR by (rule remove_insert)
  moreover have "S ! j = D ! i"
    unfolding S_def using jR by (rule nth_insert)
  ultimately have "reorder S j i = take i R @ D ! i # drop i R" by simp
  also have "\<dots> = D" unfolding R_def using assms(1) by (rule insert_remove)
  finally show ?thesis using S by simp
qed

theorem reorder_inverse_move_witness:
  "(0::nat) < length (map Some [blockA, blockB, blockC]) \<and>
   (2::nat) < length (map Some [blockA, blockB, blockC]) \<and>
   reorder (map Some [blockA, blockB, blockC]) 0 2 = map Some [blockB, blockC, blockA] \<and>
   reorder (reorder (map Some [blockA, blockB, blockC]) 0 2) 2 0 = map Some [blockA, blockB, blockC]"
proof -
  have "reorder (map Some [blockA, blockB, blockC]) 0 2 = map Some [blockB, blockC, blockA]"
    by (simp add: reorder_valid)
  then show ?thesis
    using reorder_inverse_move [of 0 "map Some [blockA, blockB, blockC]" 2] by simp
qed

section \<open>Facts about the callbacks of map\<close>

lemma map_arr_document:
  "map_arr (on_block f) (map Some D) = Inr (map Some (map f D))"
  by (induction D) (simp_all add: on_block_def)

lemma map_arr_defined:
  "map_arr (on_block f) slots = Inr slots' \<Longrightarrow>
     slots = map Some (defined_blocks slots) \<and> slots' = map Some (map f (defined_blocks slots))"
proof (induction slots arbitrary: slots')
  case Nil
  then show ?case by simp
next
  case (Cons s slots)
  then show ?case
    by (cases s) (auto simp add: on_block_def split: sum.splits)
qed

lemma toggleEditMode_document:
  "toggleEditMode i (map Some D) = Inr (map Some (map (toggle_block i) D))"
  by (simp add: toggleEditMode_def map_arr_document)

lemma updateBlockContent_document:
  "updateBlockContent i c (map Some D) = Inr (map Some (map (update_block i c) D))"
  by (simp add: updateBlockContent_def map_arr_document)

lemma filter_length_mono:
  "(\<And>x. x \<in> set xs \<Longrightarrow> P x \<Longrightarrow> Q x) \<Longrightarrow> length (filter P xs) \<le> length (filter Q xs)"
  by (induction xs) auto

lemma distinct_key_once:
  "distinct (map f xs) \<Longrightarrow> length (filter (\<lambda>x. f x = a) xs) \<le> 1"
proof (induction xs)
  case Nil
  then show ?case by simp
next
  case (Cons x xs)
  show ?case
  proof (cases "f x = a")
    case True
    from Cons.prems have "f x \<notin> f ` set xs" by simp
    with True have "a \<notin> f ` set xs" by simp
    then have "\<forall>y\<in>set xs. f y \<noteq> a" by blast
    then have "filter (\<lambda>x. f x = a) xs = []" by (simp add: filter_empty_conv)
    with True show ?thesis by simp
  next
    case False
    with Cons show ?thesis by simp
  qed
qed

lemma editing_toggle_block: "editing (toggle_block i b) \<Longrightarrow> block_id b = i"
  by (simp add: toggle_block_def editing_def split: if_splits)

lemma upper_image: "toUpperCase ''image'' = ''IMAGE''"
  by code_simp

section \<open>Adding a block and editing its content\<close>

text \<open>
  C9. For every Document \<open>D\<close>, \<open>addBlock\<close> returns (it is a total function) \<open>D\<close> with
  exactly one new block appended, of the given type and with the fresh identifier, whose
  content is the placeholder of the type and which is editing for text and heading and not
  for image. In particular \<open>addBlock('text')\<close> on \<open>[A, B]\<close> gives \<open>[A, B, NewText]\<close>
  with \<open>NewText\<close> editing and of content "New text block".
\<close>

theorem addBlock_appends:
  "(\<exists>N. addBlock uuid ty (map Some D) = map Some (D @ [N]) \<and>
       block_id N = uuid \<and> block_type N = ty \<and>
       content N = (case ty of
                      Text \<Rightarrow> ''New text block''
                    | Heading \<Rightarrow> ''New heading block''
                    | Image \<Rightarrow> ''https://placehold.co/200x150/d3d3d3/555555?text=IMAGE'') \<and>
       isEditing N = Some (ty \<noteq> Image) \<and> editing N = (ty = Text \<or> ty = Heading)) \<and>
   (\<exists>NewText. addBlock uuid Text (map Some [blockA, blockB]) = map Some [blockA, blockB, NewText] \<and>
       editing NewText = True \<and> content NewText = ''New text block'')"
proof (intro conjI)
  show "\<exists>N. addBlock uuid ty (map Some D) = map Some (D @ [N]) \<and>
       block_id N = uuid \<and> block_type N = ty \<and>
       content N = (case ty of
                      Text \<Rightarrow> ''New text block''
                    | Heading \<Rightarrow> ''New heading block''
                    | Image \<Rightarrow> ''https://placehold.co/200x150/d3d3d3/555555?text=IMAGE'') \<and>
       isEditing N = Some (ty \<noteq> Image) \<and> editing N = (ty = Text \<or> ty = Heading)"
    by (rule exI [of _ "newBlock uuid ty"], cases ty)
      (simp_all add: addBlock_def newBlock_def editing_def upper_image)
  show "\<exists>NewText. addBlock uuid Text (map Some [blockA, blockB]) = map Some [blockA, blockB, NewText] \<and>
       editing NewText = True \<and> content NewText = ''New text block''"
    by (rule exI [of _ "newBlock uuid Text"])
      (simp add: addBlock_def newBlock_def editing_def)
qed

text \<open>
  C8. For every Document \<open>D\<close>, identifier \<open>i\<close> and string \<open>c\<close>,
  \<open>updateBlockContent\<close> returns a Document of the same length in which every block has
  the identifier, type and editing flag it had at its position; a block whose identifier
  is \<open>i\<close> differs from the old one in its content only, which is \<open>c\<close>; every other
  block is unchanged; and when \<open>i\<close> is not present the Document is unchanged.
\<close>

theorem updateBlockContent_frame:
  "\<exists>D'. updateBlockContent i c (map Some D) = Inr (map Some D') \<and> length D' = length D \<and>
     (\<forall>k<length D.
        block_id (D' ! k) = block_id (D ! k) \<and> block_type (D' ! k) = block_type (D ! k) \<and>
        isEditing (D' ! k) = isEditing (D ! k) \<and>
        (block_id (D ! k) = i \<longrightarrow> D' ! k = (D ! k)\<lparr>content := c\<rparr>) \<and>
        (block_id (D ! k) \<noteq> i \<longrightarrow> D' ! k = D ! k)) \<and>
     (i \<notin> set (map block_id D) \<longrightarrow> D' = D)"
proof -
  define D' where "D' = map (update_block i c) D"
  have "updateBlockContent i c (map Some D) = Inr (map Some D')"
    by (simp add: D'_def updateBlockContent_document)
  moreover have "length D' = length D" by (simp add: D'_def)
  moreover have "\<forall>k<length D.
        block_id (D' ! k) = block_id (D ! k) \<and> block_type (D' ! k) = block_type (D ! k) \<and>
        isEditing (D' ! k) = isEditing (D ! k) \<and>
        (block_id (D ! k) = i \<longrightarrow> D' ! k = (D ! k)\<lparr>content := c\<rparr>) \<and>
        (block_id (D ! k) \<noteq> i \<longrightarrow> D' ! k = D ! k)"
    by (simp add: D'_def update_block_def)
  moreover have "i \<notin> set (map block_id D) \<longrightarrow> D' = D"
  proof
    assume "i \<notin> set (map block_id D)"
    then have "\<forall>b\<in>set D. update_block i c b = b" by (auto simp add: update_block_def)
    then show "D' = D" unfolding D'_def by (simp add: map_idI)
  qed
  ultimately show ?thesis by blast
qed

theorem updateBlockContent_frame_witness:
  "''Z'' \<notin> set (map block_id [blockA, blockB]) \<and>
   updateBlockContent ''Z'' ''x'' (map Some [blockA, blockB]) = Inr (map Some [blockA, blockB]) \<and>
   block_id ([blockA, blockB] ! 1) = ''B'' \<and>
   updateBlockContent ''B'' ''x'' (map Some [blockA, blockB])
     = Inr (map Some [blockA, blockB\<lparr>content := ''x''\<rparr>])"
proof -
  have "''Z'' \<notin> set (map block_id [blockA, blockB])"
    by (simp add: blockA_def blockB_def)
  moreover from this have
    "updateBlockContent ''Z'' ''x'' (map Some [blockA, blockB]) = Inr (map Some [blockA, blockB])"
    using updateBlockContent_frame [of "''Z''" "''x''" "[blockA, blockB]"] by auto
  moreover have "updateBlockContent ''B'' ''x'' (map Some [blockA, blockB])
     = Inr (map Some [blockA, blockB\<lparr>content := ''x''\<rparr>])"
    by (simp add: updateBlockContent_def on_block_def update_block_def blockA_def blockB_def)
  moreover have "block_id ([blockA, blockB] ! 1) = ''B''" by (simp add: blockB_def)
  ultimately show ?thesis by blast
qed

section \<open>Edit mode\<close>

text \<open>
  C10. For every Document \<open>D\<close> (its blocks have distinct identifiers), also one in which
  several blocks are editing, and every identifier \<open>i\<close>, present in \<open>D\<close> or not,
  \<open>toggleEditMode(i)\<close> returns a Document in which at most one block is editing.
\<close>

theorem toggleEditMode_restores_invariant:
  assumes "distinct (map block_id D)"
  shows "\<exists>D'. toggleEditMode i (map Some D) = Inr (map Some D') \<and> at_most_one_editing D'"
proof -
  have "length (filter editing (map (toggle_block i) D))
          = length (filter (\<lambda>b. editing (toggle_block i b)) D)"
    by (simp add: filter_map comp_def)
  also have "\<dots> \<le> length (filter (\<lambda>b. block_id b = i) D)"
    by (rule filter_length_mono) (rule editing_toggle_block)
  also have "\<dots> \<le> 1" using assms by (rule distinct_key_once)
  finally have "at_most_one_editing (map (toggle_block i) D)"
    by (simp add: at_most_one_editing_def)
  then show ?thesis using toggleEditMode_document by blast
qed

theorem toggleEditMode_restores_invariant_witness:
  "distinct (map block_id [blockA, blockB\<lparr>isEditing := Some True\<rparr>, blockC\<lparr>isEditing := Some True\<rparr>]) \<and>
   \<not> at_most_one_editing [blockA, blockB\<lparr>isEditing := Some True\<rparr>, blockC\<lparr>isEditing := Some True\<rparr>] \<and>
   (\<exists>D'. toggleEditMode ''A''
            (map Some [blockA, blockB\<lparr>isEditing := Some True\<rparr>, blockC\<lparr>isEditing := Some True\<rparr>])
          = Inr (map Some D') \<and> at_most_one_editing D')"
  using toggleEditMode_restores_invariant
    [of "[blockA, blockB\<lparr>isEditing := Some True\<rparr>, blockC\<lparr>isEditing := Some True\<rparr>]" "''A''"]
  by (simp add: blockA_def blockB_def blockC_def at_most_one_editing_def editing_def)

text \<open>
  C4, as the specification has it: for an identifier that no block of the Document has,
  \<open>toggleEditMode\<close> leaves the Document unchanged. It does not when a block is editing:
  the block \<open>B\<close>, editing, is no longer editing after \<open>toggleEditMode\<close> of the absent
  identifier \<open>Z\<close>.
\<close>

theorem toggleEditMode_absent_id_counterexample:
  "''Z'' \<notin> set (map block_id [blockB\<lparr>isEditing := Some True\<rparr>]) \<and>
   toggleEditMode ''Z'' (map Some [blockB\<lparr>isEditing := Some True\<rparr>])
     = Inr (map Some [blockB\<lparr>isEditing := Some False\<rparr>]) \<and>
   toggleEditMode ''Z'' (map Some [blockB\<lparr>isEditing := Some True\<rparr>])
     \<noteq> Inr (map Some [blockB\<lparr>isEditing := Some True\<rparr>]) \<and>
   editing (blockB\<lparr>isEditing := Some True\<rparr>) \<and> \<not> editing (blockB\<lparr>isEditing := Some False\<rparr>)"
  by (simp add: toggleEditMode_def on_block_def toggle_block_def blockB_def editing_def)

text \<open>
  C4, amended: for an identifier that no block of the Document \<open>D\<close> has,
  \<open>toggleEditMode\<close> returns a Document of the same length in which every block is the
  block of \<open>D\<close> at its position with the editing flag set to false (identifier, type
  and content are unchanged); every block's editing flag is as before exactly when no
  block of \<open>D\<close> is editing.
\<close>

theorem toggleEditMode_absent_id:
  assumes "i \<notin> set (map block_id D)"
  shows "\<exists>D'. toggleEditMode i (map Some D) = Inr (map Some D') \<and> length D' = length D \<and>
           (\<forall>k<length D. D' ! k = (D ! k)\<lparr>isEditing := Some False\<rparr>) \<and>
           (map editing D' = map editing D) = (filter editing D = [])"
proof -
  define D' where "D' = map (toggle_block i) D"
  have t: "toggleEditMode i (map Some D) = Inr (map Some D')"
    by (simp add: D'_def toggleEditMode_document)
  have off: "toggle_block i b = b\<lparr>isEditing := Some False\<rparr>" if "b \<in> set D" for b
    using that assms by (auto simp add: toggle_block_def)
  have "\<forall>k<length D. D' ! k = (D ! k)\<lparr>isEditing := Some False\<rparr>"
    by (simp add: D'_def off)
  moreover have "length D' = length D" by (simp add: D'_def)
  moreover have "(map editing D' = map editing D) = (filter editing D = [])"
  proof -
    have "\<forall>b\<in>set D. \<not> editing (toggle_block i b)"
      by (simp add: off editing_def)
    then have "(map editing D' = map editing D) = (\<forall>b\<in>set D. \<not> editing b)"
      by (simp add: D'_def)
    then show ?thesis by (simp add: filter_empty_conv)
  qed
  ultimately show ?thesis using t by blast
qed

theorem toggleEditMode_absent_id_witness:
  "''Z'' \<notin> set (map block_id [blockA, blockB\<lparr>isEditing := Some True\<rparr>]) \<and>
   (\<exists>D'. toggleEditMode ''Z'' (map Some [blockA, blockB\<lparr>isEditing := Some True\<rparr>]) = Inr (map Some D') \<and>
      length D' = length [blockA, blockB\<lparr>isEditing := Some True\<rparr>] \<and>
      D' ! 0 = blockA\<lparr>isEditing := Some False\<rparr> \<and> D' ! 1 = blockB\<lparr>isEditing := Some False\<rparr>) \<and>
   ''Z'' \<notin> set (map block_id [blockA, blockB]) \<and> filter editing [blockA, blockB] = [] \<and>
   (\<exists>D'. toggleEditMode ''Z'' (map Some [blockA, blockB]) = Inr (map Some D') \<and>
      map editing D' = map editing [blockA, blockB])"
proof -
  have 1: "''Z'' \<notin> set (map block_id [blockA, blockB\<lparr>isEditing := Some True\<rparr>])"
    and 2: "''Z'' \<notin> set (map block_id [blockA, blockB])"
    and 3: "filter editing [blockA, blockB] = []"
    by (simp_all add: blockA_def blockB_def editing_def)
  from toggleEditMode_absent_id [OF 1] have
    "\<exists>D'. toggleEditMode ''Z'' (map Some [blockA, blockB\<lparr>isEditing := Some True\<rparr>]) = Inr (map Some D') \<and>
      length D' = length [blockA, blockB\<lparr>isEditing := Some True\<rparr>] \<and>
      D' ! 0 = blockA\<lparr>isEditing := Some False\<rparr> \<and> D' ! 1 = blockB\<lparr>isEditing := Some False\<rparr>"
    by force
  moreover from toggleEditMode_absent_id [OF 2] 3 have
    "\<exists>D'. toggleEditMode ''Z'' (map Some [blockA, blockB]) = Inr (map Some D') \<and>
      map editing D' = map editing [blockA, blockB]"
    by blast
  ultimately show ?thesis using 1 2 3 by blast
qed

section \<open>The invariant: at most one block is editing\<close>

text \<open>
  What each operation does to the invariant. \<open>updateBlockContent\<close> and a reordering keep
  the number of editing blocks; \<open>toggleEditMode\<close> establishes the invariant (C10);
  \<open>addBlock\<close> keeps it for an image, and for a text or a heading exactly when no block is
  editing, since it appends an editing block and leaves the others as they are.
\<close>

lemma at_most_one_editing_update:
  "at_most_one_editing (map (update_block i c) D) = at_most_one_editing D"
proof -
  have "editing (update_block i c b) = editing b" for b
    by (simp add: update_block_def editing_def)
  then have "filter editing (map (update_block i c) D) = map (update_block i c) (filter editing D)"
    by (simp add: filter_map comp_def)
  then show ?thesis by (simp add: at_most_one_editing_def)
qed

lemma at_most_one_editing_mset:
  assumes "mset D' = mset D"
  shows "at_most_one_editing D' = at_most_one_editing D"
proof -
  have "mset (filter editing D') = mset (filter editing D)"
    using assms by simp
  then have "length (filter editing D') = length (filter editing D)"
    by (rule mset_eq_length)
  then show ?thesis by (simp add: at_most_one_editing_def)
qed

lemma at_most_one_editing_addBlock:
  "at_most_one_editing (D @ [newBlock uuid ty]) =
     (if ty = Image then at_most_one_editing D else filter editing D = [])"
  by (simp add: at_most_one_editing_def newBlock_def editing_def)

text \<open>
  C3 at the input \<open>addBlock('text')\<close> on a Document whose one block is editing: the
  Document has at most one editing block, the result has two.
\<close>

theorem addBlock_second_editing:
  "at_most_one_editing [blockB\<lparr>isEditing := Some True\<rparr>] \<and>
   addBlock ''N'' Text (map Some [blockB\<lparr>isEditing := Some True\<rparr>])
     = map Some [blockB\<lparr>isEditing := Some True\<rparr>,
                 \<lparr>block_id = ''N'', block_type = Text, content = ''New text block'', isEditing = Some True\<rparr>] \<and>
   \<not> at_most_one_editing [blockB\<lparr>isEditing := Some True\<rparr>,
                 \<lparr>block_id = ''N'', block_type = Text, content = ''New text block'', isEditing = Some True\<rparr>]"
  by (simp add: at_most_one_editing_def editing_def addBlock_def newBlock_def blockB_def)

section \<open>Dropping on the empty container\<close>

text \<open>
  With no block and a drag index, the container's handler stores \<open>blocks[index]\<close>, read
  from the empty array: the new array has one slot, and it holds \<open>undefined\<close>.
\<close>

lemma containerOnDrop_undefined:
  "blocks st = [] \<Longrightarrow> draggedItemIndex st = Some i \<Longrightarrow> blocks (containerOnDrop st) = [None]"
  by (simp add: containerOnDrop_def index_arr_def)







section \<open>The invariant: no image block is editing\<close>

lemma defined_blocks_append:
  "defined_blocks (xs @ ys) = defined_blocks xs @ defined_blocks ys"
  by (induction xs rule: defined_blocks.induct) simp_all

lemma defined_blocks_document: "defined_blocks (map Some D) = D"
  by (induction D) simp_all

lemma set_defined_blocks: "set (defined_blocks xs) = {b. Some b \<in> set xs}"
  by (induction xs rule: defined_blocks.induct) auto

lemma set_reorder: "set (reorder xs i j) \<subseteq> insert None (set xs)"
proof (cases "i < length xs")
  case True
  then have "mset (reorder xs i j) = mset xs" by (rule reorder_mset)
  then have "set (reorder xs i j) = set xs" by (rule mset_eq_setD)
  then show ?thesis by blast
next
  case False
  then have "reorder xs i j = take j xs @ None # drop j xs" by (simp add: reorder_invalid)
  moreover have "set (take j xs) \<union> set (drop j xs) = set xs"
    by (metis append_take_drop_id set_append)
  ultimately show ?thesis by auto
qed

lemma no_image_editing_iff:
  "no_image_editing D \<longleftrightarrow> (\<forall>b\<in>set D. block_type b = Image \<longrightarrow> \<not> editing b)"
  by (auto simp add: no_image_editing_def filter_empty_conv)

lemma no_image_editing_reorder:
  assumes "no_image_editing (defined_blocks xs)"
  shows "no_image_editing (defined_blocks (reorder xs i j))"
proof -
  have "set (defined_blocks (reorder xs i j)) \<subseteq> set (defined_blocks xs)"
    using set_reorder [of xs i j] by (auto simp add: set_defined_blocks)
  with assms show ?thesis by (auto simp add: no_image_editing_iff)
qed

lemma store_step_no_image_editing:
  assumes "no_image_editing (defined_blocks (blocks st))"
    and "toggles_no_image x st" and "store_step x st = Inr st'"
  shows "no_image_editing (defined_blocks (blocks st'))"
proof (cases x)
  case (AddBlock uuid ty)
  then have "blocks st' = blocks st @ [Some (newBlock uuid ty)]"
    using assms(3) by (auto simp add: addBlock_def)
  moreover have "block_type (newBlock uuid ty) = Image \<longrightarrow> \<not> editing (newBlock uuid ty)"
    by (simp add: newBlock_def editing_def)
  ultimately show ?thesis
    using assms(1) by (simp add: defined_blocks_append no_image_editing_iff)
next
  case (UpdateBlockContent i c)
  then obtain bs where u: "updateBlockContent i c (blocks st) = Inr bs" and b: "blocks st' = bs"
    using assms(3) by (auto split: sum.splits)
  from u have "bs = map Some (map (update_block i c) (defined_blocks (blocks st)))"
    unfolding updateBlockContent_def by (rule map_arr_defined [THEN conjunct2])
  with b have "defined_blocks (blocks st') = map (update_block i c) (defined_blocks (blocks st))"
    by (simp only: defined_blocks_document)
  moreover have "block_type (update_block i c b) = block_type b \<and>
      editing (update_block i c b) = editing b" for b
    by (simp add: update_block_def editing_def)
  ultimately show ?thesis using assms(1) by (simp add: no_image_editing_iff)
next
  case (ToggleEditMode i)
  then obtain bs where u: "toggleEditMode i (blocks st) = Inr bs" and b: "blocks st' = bs"
    using assms(3) by (auto split: sum.splits)
  from u have "bs = map Some (map (toggle_block i) (defined_blocks (blocks st)))"
    unfolding toggleEditMode_def by (rule map_arr_defined [THEN conjunct2])
  with b have d: "defined_blocks (blocks st') = map (toggle_block i) (defined_blocks (blocks st))"
    by (simp only: defined_blocks_document)
  have "\<forall>b\<in>set (defined_blocks (blocks st)). \<not> (block_id b = i \<and> block_type b = Image)"
    using assms(2) ToggleEditMode by (simp add: filter_empty_conv)
  then have "\<forall>b\<in>set (defined_blocks (blocks st)).
      block_type (toggle_block i b) = Image \<longrightarrow> \<not> editing (toggle_block i b)"
    by (auto simp add: toggle_block_def editing_def)
  with d show ?thesis by (simp add: no_image_editing_iff)
next
  case (BeginDrag index)
  then have "blocks st' = blocks st"
    using assms(3) by (auto simp add: handleDragStart_def split: option.splits)
  with assms(1) show ?thesis by simp
next
  case (DragOver index)
  then have "blocks st' = blocks st" using assms(3) by (auto simp add: handleDragOver_def)
  with assms(1) show ?thesis by simp
next
  case DragLeave
  then have "blocks st' = blocks st" using assms(3) by (auto simp add: handleDragLeave_def)
  with assms(1) show ?thesis by simp
next
  case (Drop dropIndex)
  then have "st' = handleDrop dropIndex st" using assms(3) by simp
  then have "blocks st' =
     (case draggedItemIndex st of
        None \<Rightarrow> blocks st
      | Some i \<Rightarrow> if i = dropIndex then blocks st else reorder (blocks st) i dropIndex)"
    by (simp only: blocks_handleDrop)
  with assms(1) show ?thesis
    by (simp add: no_image_editing_reorder split: option.splits)
next
  case EndDrag
  then have "blocks st' = blocks st" using assms(3) by (auto simp add: handleDragEnd_def)
  with assms(1) show ?thesis by simp
qed

text \<open>
  In a Document, whose blocks have distinct identifiers, the identifier of a text or heading
  block is not the identifier of an image block: a toggle for such a block, as a
  double-click makes it, is one of the toggles the invariant allows.
\<close>

lemma presenter_toggle_allowed:
  assumes "blocks st = map Some D" and "distinct (map block_id D)"
    and "b \<in> set D" and "block_type b = Text \<or> block_type b = Heading"
  shows "toggles_no_image (ToggleEditMode (block_id b)) st"
proof -
  have same: "b' = b" if "b' \<in> set D" and "block_id b' = block_id b" for b'
    using that assms(2,3) by (meson distinct_map inj_onD)
  have "block_type b \<noteq> Image" using assms(4) by auto
  with same have "\<forall>b'\<in>set D. \<not> (block_id b' = block_id b \<and> block_type b' = Image)"
    by blast
  then show ?thesis
    using assms(1) by (simp add: defined_blocks_document filter_empty_conv)
qed

text \<open>
  C6, as the specification has it: no image block is editing in a state reached by the
  operations of the store from a state with this property. \<open>toggleEditMode\<close> does not
  look at the type: called with the identifier of the image block \<open>C\<close>, it sets the block
  editing.
\<close>

theorem image_toggle_counterexample:
  "block_type blockC = Image \<and> no_image_editing (defined_blocks (blocks (idle (map Some [blockC])))) \<and>
   store_run [ToggleEditMode ''C''] (idle (map Some [blockC]))
     = Inr (idle (map Some [blockC\<lparr>isEditing := Some True\<rparr>])) \<and>
   editing (blockC\<lparr>isEditing := Some True\<rparr>) \<and>
   \<not> no_image_editing (defined_blocks (blocks (idle (map Some [blockC\<lparr>isEditing := Some True\<rparr>]))))"
  by (simp add: idle_def blockC_def no_image_editing_def editing_def toggleEditMode_def
      on_block_def toggle_block_def)

text \<open>
  C6, amended: from a state in which no image block is editing, every sequence of
  operations of the store (\<open>addBlock\<close>, \<open>updateBlockContent\<close>, \<open>toggleEditMode\<close>,
  the drag operations and \<open>drop\<close>) that returns, and in which every \<open>toggleEditMode\<close>
  is called with an identifier that no image block has (the calls the block presenter
  makes), ends in a state in which no image block is editing.
\<close>

theorem no_image_editing_preserved:
  assumes "no_image_editing (defined_blocks (blocks st))"
    and "toggles_no_image_run ops st" and "store_run ops st = Inr st'"
  shows "no_image_editing (defined_blocks (blocks st'))"
  using assms
proof (induction ops arbitrary: st)
  case Nil
  then show ?case by simp
next
  case (Cons x ops)
  from Cons.prems(3) obtain st1 where s: "store_step x st = Inr st1" and r: "store_run ops st1 = Inr st'"
    by (auto split: sum.splits)
  from Cons.prems(2) s have t: "toggles_no_image x st" and tr: "toggles_no_image_run ops st1"
    by simp_all
  from Cons.prems(1) t s have "no_image_editing (defined_blocks (blocks st1))"
    by (rule store_step_no_image_editing)
  then show ?case using tr r by (rule Cons.IH)
qed

theorem no_image_editing_preserved_witness:
  "no_image_editing (defined_blocks (blocks (idle (map Some [blockA, blockB, blockC])))) \<and>
   toggles_no_image_run
     [AddBlock ''N'' Image, ToggleEditMode ''A'', UpdateBlockContent ''A'' ''x'',
      ToggleEditMode ''B'', BeginDrag 2, DragOver 0, Drop 0]
     (idle (map Some [blockA, blockB, blockC])) \<and>
   store_run
     [AddBlock ''N'' Image, ToggleEditMode ''A'', UpdateBlockContent ''A'' ''x'',
      ToggleEditMode ''B'', BeginDrag 2, DragOver 0, Drop 0]
     (idle (map Some [blockA, blockB, blockC]))
   = Inr (idle (map Some
       [blockC\<lparr>isEditing := Some False\<rparr>,
        blockA\<lparr>content := ''x'', isEditing := Some False\<rparr>,
        blockB\<lparr>isEditing := Some True\<rparr>,
        \<lparr>block_id = ''N'', block_type = Image,
         content = ''https://placehold.co/200x150/d3d3d3/555555?text=IMAGE'',
         isEditing = Some False\<rparr>])) \<and>
   no_image_editing (defined_blocks (blocks (idle (map Some
       [blockC\<lparr>isEditing := Some False\<rparr>,
        blockA\<lparr>content := ''x'', isEditing := Some False\<rparr>,
        blockB\<lparr>isEditing := Some True\<rparr>,
        \<lparr>block_id = ''N'', block_type = Image,
         content = ''https://placehold.co/200x150/d3d3d3/555555?text=IMAGE'',
         isEditing = Some False\<rparr>]))))"
proof -
  have i: "no_image_editing (defined_blocks (blocks (idle (map Some [blockA, blockB, blockC]))))"
    by (simp add: idle_def no_image_editing_def blockA_def blockB_def blockC_def editing_def)
  have r: "store_run
     [AddBlock ''N'' Image, ToggleEditMode ''A'', UpdateBlockContent ''A'' ''x'',
      ToggleEditMode ''B'', BeginDrag 2, DragOver 0, Drop 0]
     (idle (map Some [blockA, blockB, blockC]))
   = Inr (idle (map Some
       [blockC\<lparr>isEditing := Some False\<rparr>,
        blockA\<lparr>content := ''x'', isEditing := Some False\<rparr>,
        blockB\<lparr>isEditing := Some True\<rparr>,
        \<lparr>block_id = ''N'', block_type = Image,
         content = ''https://placehold.co/200x150/d3d3d3/555555?text=IMAGE'',
         isEditing = Some False\<rparr>]))"
    by (simp add: idle_def blockA_def blockB_def blockC_def addBlock_def newBlock_def upper_image
        toggleEditMode_def updateBlockContent_def on_block_def toggle_block_def update_block_def
        editing_def handleDragStart_def index_arr_def handleDragOver_def handleDrop_def
        reorder_valid)
  have t: "toggles_no_image_run
     [AddBlock ''N'' Image, ToggleEditMode ''A'', UpdateBlockContent ''A'' ''x'',
      ToggleEditMode ''B'', BeginDrag 2, DragOver 0, Drop 0]
     (idle (map Some [blockA, blockB, blockC]))"
    by (simp add: idle_def blockA_def blockB_def blockC_def addBlock_def newBlock_def upper_image
        toggleEditMode_def updateBlockContent_def on_block_def toggle_block_def update_block_def
        editing_def handleDragStart_def index_arr_def handleDragOver_def handleDrop_def
        reorder_valid)
  from no_image_editing_preserved [OF i t r] i t r show ?thesis by blast
qed

end
